theory Spec2Isabelle
  imports Complex_Main "HOL-Library.Log_Nat"
begin

section \<open>Russian News Summarizer API: the serving contract of \<open>api/main.py\<close>\<close>

text \<open>
  The development embeds the request handlers of \<open>api/main.py\<close>: the startup hook that
  loads the summarization pipeline into the module-level variable \<open>summarizer\<close>, the
  \<open>/health\<close> and \<open>/\<close> handlers, and the \<open>/summarize\<close> handler with its request
  schema. The neural pipeline, the clock and the loader are outside the repository; they
  are parameters of the model.
\<close>

subsection \<open>Strings and exceptions\<close>

text \<open>
  A Python \<open>str\<close> is a sequence of Unicode code points and \<open>len\<close> counts code points,
  so text is a list of code points. Literals of the source that are plain ASCII are written
  as HOL strings and read through \<open>ascii\<close>.
\<close>

type_synonym ustring = "nat list"

definition ascii :: "string \<Rightarrow> ustring" where
  "ascii s = map of_char s"

text \<open>
  An exception is kept as its class name and the text \<open>str(e)\<close> gives. Only instances of
  \<open>Exception\<close> are modelled, which is what both \<open>except Exception\<close> clauses of the
  source catch; a raised exception is the left injection of a sum.
\<close>

datatype py_exception = Raised string ustring

text \<open>A name between apostrophes (code point 39), as Python prints it in messages.\<close>

definition quoted :: "string \<Rightarrow> ustring" where
  "quoted s = 39 # ascii s @ [39]"

fun str :: "py_exception \<Rightarrow> ustring" where
  "str (Raised cls msg) = msg"

subsection \<open>Python floats\<close>

text \<open>
  A finite binary64 value is kept as the rational it denotes (the two zeros are identified,
  as Python's \<open>==\<close> does). \<open>nearest_binary64\<close> rounds a rational to 53 significant bits
  with ties to even, the quantum never going below \<open>2 powi - 1074\<close> (subnormals);
  \<open>float_of_rat\<close> adds the overflow to an infinity.
\<close>

datatype pyfloat = Finite rat | PosInf | NegInf

definition ilog2 :: "rat \<Rightarrow> int" where
  "ilog2 x = (let (p, q) = quotient_of \<bar>x\<bar>; e0 = bitlen p - bitlen q
              in if 2 powi e0 \<le> \<bar>x\<bar> then e0 else e0 - 1)"

definition round_half_even :: "rat \<Rightarrow> int" where
  "round_half_even y = (let f = \<lfloor>y\<rfloor>; d = y - of_int f
     in if d < 1 / 2 then f else if 1 / 2 < d then f + 1 else if even f then f else f + 1)"

definition nearest_binary64 :: "rat \<Rightarrow> rat" where
  "nearest_binary64 x = (if x = 0 then 0 else
     let q = max (ilog2 x - 52) (- 1074)
     in of_int (round_half_even (x / 2 powi q)) * 2 powi q)"

definition float_of_rat :: "rat \<Rightarrow> pyfloat" where
  "float_of_rat x = (let r = nearest_binary64 x
     in if 2 ^ 1024 \<le> r then PosInf else if r \<le> - (2 ^ 1024) then NegInf else Finite r)"

text \<open>
  \<open>a / b\<close> on two Python ints is the correctly rounded quotient; it raises on a zero divisor
  and when the quotient is too large for a float.
\<close>

definition true_div :: "int \<Rightarrow> int \<Rightarrow> py_exception + pyfloat" where
  "true_div a b =
     (if b = 0 then Inl (Raised ''ZeroDivisionError'' (ascii ''division by zero''))
      else case float_of_rat (of_int a / of_int b) of
             Finite r \<Rightarrow> Inr (Finite r)
           | _ \<Rightarrow> Inl (Raised ''OverflowError''
                        (ascii ''integer division result too large for a float'')))"

text \<open>The difference of two clock readings, both finite floats.\<close>

definition float_sub :: "rat \<Rightarrow> rat \<Rightarrow> pyfloat" where
  "float_sub a b = float_of_rat (a - b)"

text \<open>
  \<open>round(x, ndigits)\<close> with \<open>ndigits \<ge> 0\<close>: an infinity rounds to itself; a finite value
  is rounded, in its exact binary value, to \<open>ndigits\<close> decimals with ties to even, and the
  decimal is read back as the nearest float. More than 323 digits leave the value as it is.
\<close>

definition py_round :: "pyfloat \<Rightarrow> nat \<Rightarrow> py_exception + pyfloat" where
  "py_round v ndigits =
     (case v of
        Finite x \<Rightarrow>
          if 323 < ndigits then Inr (Finite x)
          else (case float_of_rat (of_int (round_half_even (x * 10 ^ ndigits)) / 10 ^ ndigits) of
                  Finite r \<Rightarrow> Inr (Finite r)
                | _ \<Rightarrow> Inl (Raised ''OverflowError''
                             (ascii ''rounded value too large to represent'')))
      | _ \<Rightarrow> Inr v)"

definition float_ge :: "pyfloat \<Rightarrow> rat \<Rightarrow> bool" where
  "float_ge v c = (case v of Finite x \<Rightarrow> c \<le> x | PosInf \<Rightarrow> True | NegInf \<Rightarrow> False)"

subsection \<open>Request and response schemas\<close>

text \<open>
  \<open>SummarizeRequest\<close> (lines 21--34): \<open>text\<close> is a required string with
  \<open>min_length = 50\<close> and \<open>max_length = 5000\<close>; \<open>max_length\<close> is \<open>Optional[int]\<close> with
  default 100, \<open>ge = 30\<close> and \<open>le = 300\<close>, so a validated request may carry \<open>None\<close> there.
\<close>

record SummarizeRequest =
  req_text :: ustring
  req_max_length :: "int option"

record SummarizeResponse =
  summary :: ustring
  original_length :: int
  summary_length :: int
  compression_ratio :: pyfloat
  processing_time :: pyfloat
  model_used :: string
  timestamp :: string

text \<open>
  The body of a \<open>POST /summarize\<close> as it arrives: a string and, for \<open>max_length\<close>, no key,
  a JSON \<open>null\<close> or an integer. The framework builds the \<open>SummarizeRequest\<close> from it before
  the handler runs and answers 422 itself when a field constraint fails.
\<close>

datatype max_length_json = Omitted | Null | IntValue int

record summarize_body =
  body_text :: ustring
  body_max_length :: max_length_json

datatype field_error =
  TextTooShort | TextTooLong | MaxLengthBelowMinimum | MaxLengthAboveMaximum

definition text_errors :: "ustring \<Rightarrow> field_error list" where
  "text_errors t =
     (if length t < 50 then [TextTooShort] else if 5000 < length t then [TextTooLong] else [])"

definition max_length_errors :: "max_length_json \<Rightarrow> field_error list" where
  "max_length_errors m =
     (case m of
        IntValue n \<Rightarrow>
          if n < 30 then [MaxLengthBelowMinimum]
          else if 300 < n then [MaxLengthAboveMaximum] else []
      | _ \<Rightarrow> [])"

definition parse_max_length :: "max_length_json \<Rightarrow> int option" where
  "parse_max_length m = (case m of Omitted \<Rightarrow> Some 100 | Null \<Rightarrow> None | IntValue n \<Rightarrow> Some n)"

definition validate_request :: "summarize_body \<Rightarrow> field_error list + SummarizeRequest" where
  "validate_request body =
     (let errs = text_errors (body_text body) @ max_length_errors (body_max_length body)
      in if errs = []
         then Inr \<lparr>req_text = body_text body,
                   req_max_length = parse_max_length (body_max_length body)\<rparr>
         else Inl errs)"

subsection \<open>The pipeline and the server state\<close>

text \<open>
  The loaded pipeline is a black box: called with the text and the generation arguments it
  raises or returns a list of dictionaries, and it may change the state \<open>'s\<close> of the
  machine-learning runtime (random generator, caches). The module keeps one global,
  \<open>summarizer\<close>, \<open>None\<close> until the startup hook has stored a pipeline in it.
  \<open>startup_done\<close> is not a variable of the program: it records that \<open>startup_event\<close> has
  returned, and nothing reads it but the abstraction \<open>engine_state\<close> below.
\<close>

record gen_kwargs =
  kw_max_length :: int
  kw_min_length :: int
  kw_do_sample :: bool

type_synonym summary_dict = "(string \<times> ustring) list"

type_synonym 's pipeline =
  "'s \<Rightarrow> ustring \<Rightarrow> gen_kwargs \<Rightarrow> (py_exception + summary_dict list) \<times> 's"

record 's server =
  summarizer :: "'s pipeline option"
  startup_done :: bool
  runtime :: 's

definition init :: "'s \<Rightarrow> 's server" where
  "init rt = \<lparr>summarizer = None, startup_done = False, runtime = rt\<rparr>"

datatype EngineState = Loading | Ready | Failed

definition engine_state :: "'s server \<Rightarrow> EngineState" where
  "engine_state s =
     (case summarizer s of
        Some p \<Rightarrow> Ready
      | None \<Rightarrow> if startup_done s then Failed else Loading)"

subsection \<open>\<open>startup_event\<close> (lines 84--111)\<close>

record pipeline_args =
  task :: string
  model :: string
  device :: int
  framework :: string

record 's load_env =
  cuda_is_available :: "py_exception + bool"
  pipeline :: "pipeline_args \<Rightarrow> py_exception + 's pipeline"

text \<open>
  The body of the \<open>try\<close>: the device is chosen from \<open>torch.cuda.is_available()\<close> and
  the pipeline is built; either call may raise.
\<close>

definition load_pipeline :: "'s load_env \<Rightarrow> py_exception + 's pipeline" where
  "load_pipeline env =
     (case cuda_is_available env of
        Inl e \<Rightarrow> Inl e
      | Inr cuda \<Rightarrow>
          pipeline env \<lparr>task = ''summarization'',
                        model = ''IlyaGusev/rut5_base_sum_gazeta'',
                        device = (if cuda then 0 else - 1),
                        framework = ''pt''\<rparr>)"

definition startup_event :: "'s load_env \<Rightarrow> 's server \<Rightarrow> 's server" where
  "startup_event env s =
     (case load_pipeline env of
        Inl e \<Rightarrow> s\<lparr>startup_done := True\<rparr>
      | Inr p \<Rightarrow> s\<lparr>summarizer := Some p, startup_done := True\<rparr>)"

definition load_succeeds :: "'s load_env \<Rightarrow> bool" where
  "load_succeeds env = (case load_pipeline env of Inl e \<Rightarrow> False | Inr p \<Rightarrow> True)"

subsection \<open>\<open>root\<close> and \<open>health_check\<close> (lines 113--132)\<close>

definition root :: "(string \<times> string) list" where
  "root = [(''message'', ''Russian News Summarizer API''), (''version'', ''1.0.0''),
           (''docs'', ''/docs''), (''openapi'', ''/openapi.json'')]"

record HealthResponse =
  status :: string
  model_loaded :: bool
  health_timestamp :: string

text \<open>\<open>now_iso\<close> is what \<open>datetime.now().isoformat()\<close> returns at the call.\<close>

definition health_check :: "'s server \<Rightarrow> string \<Rightarrow> HealthResponse" where
  "health_check s now_iso =
     \<lparr>status = (if summarizer s \<noteq> None then ''healthy'' else ''unhealthy''),
      model_loaded = (summarizer s \<noteq> None),
      health_timestamp = now_iso\<rparr>"

subsection \<open>\<open>summarize\<close> (lines 134--198)\<close>

text \<open>
  The handler reads the clock twice with \<open>time.time()\<close> and formats \<open>datetime.now()\<close>
  once; the three readings are given.
\<close>

record clock =
  time_start :: rat
  time_end :: rat
  now_strftime :: string

datatype outcome =
  Response SummarizeResponse
  | HTTPException int ustring
  | RequestValidationError "field_error list"

fun status_code :: "outcome \<Rightarrow> int" where
  "status_code (Response r) = 200"
| "status_code (HTTPException code detail) = code"
| "status_code (RequestValidationError errs) = 422"

text \<open>
  What one call did: its result, the calls it made to the pipeline (text and generation
  arguments, in order) and the server state it left.
\<close>

record 's handled =
  outcome :: outcome
  invoked :: "(ustring \<times> gen_kwargs) list"
  after :: "'s server"

text \<open>The two \<open>detail\<close> literals of lines 154 and 197, as code points.\<close>

definition detail_not_loaded :: ustring where
  "detail_not_loaded =
     [1052, 1086, 1076, 1077, 1083, 1100, 32, 1085, 1077, 32, 1079, 1072, 1075, 1088, 1091,
      1078, 1077, 1085, 1072, 46, 32, 1057, 1077, 1088, 1074, 1080, 1089, 32, 1074, 1088,
      1077, 1084, 1077, 1085, 1085, 1086, 32, 1085, 1077, 1076, 1086, 1089, 1090, 1091, 1087,
      1077, 1085, 46]"

definition detail_prefix :: ustring where
  "detail_prefix =
     [1054, 1096, 1080, 1073, 1082, 1072, 32, 1087, 1088, 1080, 32, 1086, 1073, 1088, 1072,
      1073, 1086, 1090, 1082, 1077, 32, 1090, 1077, 1082, 1089, 1090, 1072, 58, 32]"

definition processing_error :: "py_exception \<Rightarrow> outcome" where
  "processing_error e = HTTPException 500 (detail_prefix @ str e)"

text \<open>\<open>request.max_length // 3\<close>: a \<open>None\<close> there is a \<open>TypeError\<close>.\<close>

definition floordiv3 :: "int option \<Rightarrow> py_exception + int" where
  "floordiv3 v =
     (case v of
        None \<Rightarrow> Inl (Raised ''TypeError''
                     (ascii ''unsupported operand type(s) for //: '' @ quoted ''NoneType''
                       @ ascii '' and '' @ quoted ''int''))
      | Some n \<Rightarrow> Inr (n div 3))"

text \<open>\<open>result[0]["summary_text"]\<close> (line 170).\<close>

definition summary_text :: "summary_dict list \<Rightarrow> py_exception + ustring" where
  "summary_text result =
     (case result of
        [] \<Rightarrow> Inl (Raised ''IndexError'' (ascii ''list index out of range''))
      | d # ds \<Rightarrow>
          (case map_of d ''summary_text'' of
             None \<Rightarrow> Inl (Raised ''KeyError'' (quoted ''summary_text''))
           | Some s \<Rightarrow> Inr s))"

text \<open>Lines 172--189: the elapsed time, the metrics and the response object.\<close>

definition build_response :: "clock \<Rightarrow> ustring \<Rightarrow> ustring \<Rightarrow> py_exception + SummarizeResponse" where
  "build_response clk txt summ =
     (let processing = float_sub (time_end clk) (time_start clk);
          original = int (length txt);
          summary_len = int (length summ)
      in case true_div original (max summary_len 1) of
           Inl e \<Rightarrow> Inl e
         | Inr ratio \<Rightarrow>
             (case py_round ratio 2 of
                Inl e \<Rightarrow> Inl e
              | Inr ratio2 \<Rightarrow>
                  (case py_round processing 3 of
                     Inl e \<Rightarrow> Inl e
                   | Inr processing3 \<Rightarrow>
                       Inr \<lparr>summary = summ,
                            original_length = original,
                            summary_length = summary_len,
                            compression_ratio = ratio2,
                            processing_time = processing3,
                            model_used = ''rut5_base_sum_gazeta'',
                            timestamp = now_strftime clk\<rparr>)))"

definition summarize :: "'s server \<Rightarrow> clock \<Rightarrow> SummarizeRequest \<Rightarrow> 's handled" where
  "summarize s clk request =
     (case summarizer s of
        None \<Rightarrow>
          \<lparr>outcome = HTTPException 503 detail_not_loaded, invoked = [], after = s\<rparr>
      | Some pipe \<Rightarrow>
          (case floordiv3 (req_max_length request) of
             Inl e \<Rightarrow> \<lparr>outcome = processing_error e, invoked = [], after = s\<rparr>
           | Inr words \<Rightarrow>
               (let kw = \<lparr>kw_max_length = min 100 words, kw_min_length = 20,
                          kw_do_sample = False\<rparr>;
                    r = pipe (runtime s) (req_text request) kw;
                    calls = [(req_text request, kw)];
                    s' = s\<lparr>runtime := snd r\<rparr>
                in case fst r of
                     Inl e \<Rightarrow> \<lparr>outcome = processing_error e, invoked = calls, after = s'\<rparr>
                   | Inr result \<Rightarrow>
                       (case summary_text result of
                          Inl e \<Rightarrow>
                            \<lparr>outcome = processing_error e, invoked = calls, after = s'\<rparr>
                        | Inr summ \<Rightarrow>
                            (case build_response clk (req_text request) summ of
                               Inl e \<Rightarrow>
                                 \<lparr>outcome = processing_error e, invoked = calls, after = s'\<rparr>
                             | Inr resp \<Rightarrow>
                                 \<lparr>outcome = Response resp, invoked = calls,
                                  after = s'\<rparr>)))))"

text \<open>
  The route \<open>POST /summarize\<close>: the body is validated against the schema first, and only a
  request that passes reaches the handler.
\<close>

definition post_summarize :: "'s server \<Rightarrow> clock \<Rightarrow> summarize_body \<Rightarrow> 's handled" where
  "post_summarize s clk body =
     (case validate_request body of
        Inl errs \<Rightarrow> \<lparr>outcome = RequestValidationError errs, invoked = [], after = s\<rparr>
      | Inr request \<Rightarrow> summarize s clk request)"

subsection \<open>The life of the process\<close>

text \<open>
  The startup hook runs once, when the server starts (the comment of line 86), so it is
  enabled only while it has not run; the three routes can be called at any time.
\<close>

datatype 's event =
  Startup "'s load_env"
  | GetRoot
  | GetHealth string
  | PostSummarize clock summarize_body

fun enabled :: "'s server \<Rightarrow> 's event \<Rightarrow> bool" where
  "enabled s (Startup env) = (\<not> startup_done s)"
| "enabled s ev = True"

fun fire :: "'s server \<Rightarrow> 's event \<Rightarrow> 's server" where
  "fire s (Startup env) = startup_event env s"
| "fire s GetRoot = s"
| "fire s (GetHealth now_iso) = s"
| "fire s (PostSummarize clk body) = after (post_summarize s clk body)"

fun is_request :: "'s event \<Rightarrow> bool" where
  "is_request (Startup env) = False"
| "is_request ev = True"

fun run :: "'s server \<Rightarrow> 's event list \<Rightarrow> 's server option" where
  "run s [] = Some s"
| "run s (ev # evs) = (if enabled s ev then run (fire s ev) evs else None)"

subsection \<open>Notions used by the statements\<close>

text \<open>
  A pipeline is deterministic when, with sampling off, what it returns depends on the text
  and the generation arguments only, not on the state of the runtime.
\<close>

definition deterministic :: "'s pipeline \<Rightarrow> bool" where
  "deterministic pipe =
     (\<forall>rt rt' txt kw. \<not> kw_do_sample kw \<longrightarrow> fst (pipe rt txt kw) = fst (pipe rt' txt kw))"

text \<open>The generation arguments of line 164--166 for a requested \<open>max_length\<close>.\<close>

definition generation_kwargs :: "int \<Rightarrow> gen_kwargs" where
  "generation_kwargs n =
     \<lparr>kw_max_length = min 100 (n div 3), kw_min_length = 20, kw_do_sample = False\<rparr>"

subsection \<open>Sample inputs\<close>

text \<open>
  A pipeline that answers with the first \<open>max_length\<close> code points of the text and counts
  its calls in the runtime state, one that answers with a fixed summary, one that always
  raises, and a text of 60 Cyrillic letters.
\<close>

definition truncating_pipeline :: "nat pipeline" where
  "truncating_pipeline rt txt kw =
     (Inr [[(''summary_text'', take (nat (kw_max_length kw)) txt)]], Suc rt)"

definition constant_pipeline :: "ustring \<Rightarrow> nat pipeline" where
  "constant_pipeline summ rt txt kw = (Inr [[(''summary_text'', summ)]], Suc rt)"

definition raising_pipeline :: "nat pipeline" where
  "raising_pipeline rt txt kw =
     (Inl (Raised ''RuntimeError'' (ascii ''CUDA out of memory'')), Suc rt)"

definition sample_text :: ustring where
  "sample_text = replicate 60 1072"

definition sample_request :: SummarizeRequest where
  "sample_request = \<lparr>req_text = sample_text, req_max_length = Some 100\<rparr>"

definition sample_clock :: clock where
  "sample_clock = \<lparr>time_start = 1700000000, time_end = 1700000000 + 3 / 2,
                    now_strftime = ''2023-11-14 22:13:21''\<rparr>"

definition ready_server :: "nat pipeline \<Rightarrow> nat server" where
  "ready_server pipe = \<lparr>summarizer = Some pipe, startup_done = True, runtime = 0\<rparr>"

definition failing_load :: "nat load_env" where
  "failing_load =
     \<lparr>cuda_is_available = Inr False,
      pipeline = (\<lambda>args. Inl (Raised ''OSError'' (ascii ''model files not found'')))\<rparr>"

definition working_load :: "nat load_env" where
  "working_load =
     \<lparr>cuda_is_available = Inr False, pipeline = (\<lambda>args. Inr truncating_pipeline)\<rparr>"

section \<open>Properties of the float operations\<close>

text \<open>
  The exponent found by \<open>ilog2\<close> brackets the value, rounding to an integer moves a value
  by at most one half, and \<open>nearest_binary64\<close> leaves a value it has produced unchanged.
  From these: \<open>round\<close> with a non-negative number of digits never raises on a float, and
  the division of a length of at most 5000 by a positive length never overflows.
\<close>

lemma bitlen_pos_rat:
  fixes p :: int
  assumes "0 < p"
  shows "(2::rat) powi (bitlen p - 1) \<le> of_int p" "(of_int p :: rat) < 2 powi bitlen p"
proof -
  from bitlen_bounds[OF assms] have lo: "2 ^ nat (bitlen p - 1) \<le> p" and hi: "p < 2 ^ nat (bitlen p)"
    by simp_all
  have b1: "1 \<le> bitlen p" using assms by (simp add: bitlen_alt_def)
  from lo have "(of_int (2 ^ nat (bitlen p - 1)) :: rat) \<le> of_int p"
    by (simp only: of_int_le_iff)
  then show "(2::rat) powi (bitlen p - 1) \<le> of_int p"
    using b1 by (simp add: power_int_def)
  from hi have "(of_int p :: rat) < of_int (2 ^ nat (bitlen p))"
    by (simp only: of_int_less_iff)
  then show "(of_int p :: rat) < 2 powi bitlen p"
    using b1 by (simp add: power_int_def)
qed

lemma ilog2_bounds:
  assumes "x \<noteq> 0"
  shows "2 powi ilog2 x \<le> \<bar>x\<bar>" "\<bar>x\<bar> < 2 powi (ilog2 x + 1)"
proof -
  obtain p q where pq: "quotient_of \<bar>x\<bar> = (p, q)" by (cases "quotient_of \<bar>x\<bar>")
  then have q: "0 < q" and x: "\<bar>x\<bar> = of_int p / of_int q"
    by (simp_all add: quotient_of_denom_pos quotient_of_div)
  from assms have "0 < \<bar>x\<bar>" by simp
  with x q have p: "0 < p" by (simp add: zero_less_divide_iff)
  define e0 where "e0 = bitlen p - bitlen q"
  have qr: "(0::rat) < of_int q" using q by simp
  have lo: "2 powi (e0 - 1) < \<bar>x\<bar>"
  proof -
    have "e0 - 1 = (bitlen p - 1) - bitlen q" by (simp add: e0_def)
    then have "(2::rat) powi (e0 - 1) = 2 powi (bitlen p - 1) / 2 powi bitlen q"
      by (simp only: power_int_diff[of "2::rat", simplified])
    also have "\<dots> \<le> of_int p / 2 powi bitlen q"
      using bitlen_pos_rat(1)[OF p] by (simp add: divide_right_mono)
    also have "\<dots> < of_int p / of_int q"
      using bitlen_pos_rat(2)[OF q] p qr by (simp add: divide_strict_left_mono)
    finally show ?thesis by (simp add: x)
  qed
  have hi: "\<bar>x\<bar> < 2 powi (e0 + 1)"
  proof -
    have "\<bar>x\<bar> = of_int p / of_int q" by (rule x)
    also have "\<dots> < 2 powi bitlen p / of_int q"
      using bitlen_pos_rat(2)[OF p] qr by (simp add: divide_strict_right_mono)
    also have "\<dots> \<le> 2 powi bitlen p / 2 powi (bitlen q - 1)"
      by (rule frac_le) (use bitlen_pos_rat(1)[OF q] in simp_all)
    also have "\<dots> = 2 powi (e0 + 1)"
    proof -
      have "e0 + 1 = bitlen p - (bitlen q - 1)" by (simp add: e0_def)
      then show ?thesis by (simp only: power_int_diff[of "2::rat", simplified])
    qed
    finally show ?thesis .
  qed
  have il: "ilog2 x = (if 2 powi e0 \<le> \<bar>x\<bar> then e0 else e0 - 1)"
    by (simp add: ilog2_def pq e0_def Let_def)
  show "2 powi ilog2 x \<le> \<bar>x\<bar>" using lo by (simp add: il)
  show "\<bar>x\<bar> < 2 powi (ilog2 x + 1)" using hi by (auto simp: il)
qed


lemma rhe_close: "\<bar>of_int (round_half_even y) - y\<bar> \<le> 1 / 2"
proof -
  define f where "f = \<lfloor>y\<rfloor>"
  have "of_int f \<le> y" "y < of_int f + 1" unfolding f_def by linarith+
  moreover have "round_half_even y =
      (if y - of_int f < 1 / 2 then f else if 1 / 2 < y - of_int f then f + 1
       else if even f then f else f + 1)"
    by (simp add: round_half_even_def Let_def f_def)
  ultimately show ?thesis by (auto simp: abs_if)
qed

lemma rhe_of_int: "round_half_even (of_int n) = n"
  by (simp add: round_half_even_def)

lemma rhe_le: "y \<le> of_int n \<Longrightarrow> round_half_even y \<le> n"
proof (cases "y = of_int n")
  case True
  then show ?thesis by (simp add: rhe_of_int)
next
  case False
  assume "y \<le> of_int n"
  with False have "y < of_int n" by simp
  then have "\<lfloor>y\<rfloor> < n" by (simp add: floor_less_iff)
  then show ?thesis by (simp add: round_half_even_def Let_def)
qed

lemma rhe_ge: "of_int n \<le> y \<Longrightarrow> n \<le> round_half_even y"
proof -
  assume "of_int n \<le> y"
  then have "n \<le> \<lfloor>y\<rfloor>" by (simp add: le_floor_iff)
  then show ?thesis by (simp add: round_half_even_def Let_def)
qed

lemma rhe_abs_le: "\<bar>y\<bar> \<le> of_int n \<Longrightarrow> \<bar>round_half_even y\<bar> \<le> n"
proof -
  assume a: "\<bar>y\<bar> \<le> of_int n"
  then have "y \<le> of_int n" "of_int (- n) \<le> y" by (simp_all add: abs_le_iff)
  then have "round_half_even y \<le> n" "- n \<le> round_half_even y"
    by (simp_all only: rhe_le rhe_ge)
  then show ?thesis by simp
qed

lemma nb_mantissa:
  assumes "x \<noteq> 0"
  shows "\<bar>round_half_even (x / 2 powi max (ilog2 x - 52) (- 1074))\<bar> \<le> 2 ^ 53"
proof -
  define q where "q = max (ilog2 x - 52) (- 1074)"
  have q: "ilog2 x + 1 \<le> q + 53" by (simp add: q_def)
  have "\<bar>x\<bar> < 2 powi (ilog2 x + 1)" by (rule ilog2_bounds(2)[OF assms])
  also have "\<dots> \<le> 2 powi (q + 53)" by (rule power_int_increasing[OF q]) simp
  also have "\<dots> = 2 powi q * 2 ^ 53" by (simp add: power_int_add)
  finally have "\<bar>x\<bar> / 2 powi q < 2 ^ 53" by (simp add: pos_divide_less_eq mult.commute)
  then have "\<bar>x / 2 powi q\<bar> \<le> of_int (2 ^ 53)" by simp
  then have "\<bar>round_half_even (x / 2 powi q)\<bar> \<le> 2 ^ 53" by (rule rhe_abs_le)
  then show ?thesis by (simp add: q_def)
qed

lemma nb_error:
  "\<bar>nearest_binary64 x - x\<bar> \<le> 2 powi max (ilog2 x - 52) (- 1074) / 2"
proof (cases "x = 0")
  case True
  then show ?thesis by (simp add: nearest_binary64_def)
next
  case False
  define q where "q = max (ilog2 x - 52) (- 1074)"
  define n where "n = round_half_even (x / 2 powi q)"
  have pos: "(0::rat) < 2 powi q" by simp
  have "nearest_binary64 x - x = (of_int n - x / 2 powi q) * 2 powi q"
    using False by (simp add: nearest_binary64_def Let_def q_def n_def algebra_simps)
  then have "\<bar>nearest_binary64 x - x\<bar> = \<bar>of_int n - x / 2 powi q\<bar> * 2 powi q"
    by (simp add: abs_mult)
  also have "\<dots> \<le> (1 / 2) * 2 powi q"
    unfolding n_def by (rule mult_right_mono[OF rhe_close]) simp
  finally show ?thesis by (simp add: q_def)
qed

lemma nb_bound: "\<bar>nearest_binary64 x\<bar> \<le> 2 * \<bar>x\<bar> + 1"
proof (cases "x = 0")
  case True
  then show ?thesis by (simp add: nearest_binary64_def)
next
  case False
  define q where "q = max (ilog2 x - 52) (- 1074)"
  have "(2::rat) powi q \<le> \<bar>x\<bar> + 1"
  proof (cases "ilog2 x - 52 \<le> - 1074")
    case True
    then have "q = - 1074" by (simp add: q_def)
    then have "(2::rat) powi q \<le> 1" by (simp add: power_int_minus_divide)
    then show ?thesis by linarith
  next
    case False
    then have "q \<le> ilog2 x" by (simp add: q_def)
    then have "(2::rat) powi q \<le> 2 powi ilog2 x" by (rule power_int_increasing) simp
    also have "\<dots> \<le> \<bar>x\<bar>" by (rule ilog2_bounds(1)[OF \<open>x \<noteq> 0\<close>])
    finally show ?thesis by simp
  qed
  moreover have "\<bar>nearest_binary64 x - x\<bar> \<le> 2 powi q / 2"
    unfolding q_def by (rule nb_error)
  ultimately show ?thesis by linarith
qed


lemma p2_le_imp_le: "(2::rat) powi a \<le> 2 powi b \<Longrightarrow> a \<le> b"
proof (rule ccontr)
  assume le: "(2::rat) powi a \<le> 2 powi b" and "\<not> a \<le> b"
  then have "b < a" by simp
  then have "(2::rat) powi b < 2 powi a" by (rule power_int_strict_increasing) simp
  with le show False by simp
qed

lemma nb_of_multiple:
  assumes y: "y = of_int m * 2 powi k" and k: "k = max (ilog2 y - 52) (- 1074)"
  shows "nearest_binary64 y = y"
proof (cases "y = 0")
  case True
  then show ?thesis by (simp add: nearest_binary64_def)
next
  case False
  have "y / 2 powi k = of_int m" by (simp add: y)
  then have "round_half_even (y / 2 powi k) = m" by (simp only: rhe_of_int)
  then have "nearest_binary64 y = of_int m * 2 powi k"
    using False unfolding nearest_binary64_def Let_def k[symmetric] by simp
  with y show ?thesis by simp
qed

lemma nb_idem: "nearest_binary64 (nearest_binary64 x) = nearest_binary64 x"
proof (cases "nearest_binary64 x = 0")
  case True
  then show ?thesis by (simp add: nearest_binary64_def)
next
  case False
  then have x0: "x \<noteq> 0" by (auto simp: nearest_binary64_def)
  define q where "q = max (ilog2 x - 52) (- 1074)"
  define n where "n = round_half_even (x / 2 powi q)"
  define y where "y = nearest_binary64 x"
  have y: "y = of_int n * 2 powi q"
    using x0 by (simp add: y_def nearest_binary64_def Let_def q_def n_def)
  have y0: "y \<noteq> 0" using False by (simp add: y_def)
  have n53: "\<bar>n\<bar> \<le> 2 ^ 53" unfolding n_def q_def by (rule nb_mantissa[OF x0])
  have q_lo: "- 1074 \<le> q" by (simp add: q_def)
  define q' where "q' = max (ilog2 y - 52) (- 1074)"
  have ay: "\<bar>y\<bar> = of_int \<bar>n\<bar> * 2 powi q" by (simp add: y abs_mult)
  have "\<bar>y\<bar> \<le> of_int (2 ^ 53) * 2 powi q"
    unfolding ay using n53 by (intro mult_right_mono) (simp_all only: of_int_le_iff zero_le_power_int zero_le_numeral)
  also have "\<dots> = 2 powi (q + 53)" by (simp add: power_int_add)
  finally have up: "\<bar>y\<bar> \<le> 2 powi (q + 53)" .
  have "(2::rat) powi ilog2 y \<le> 2 powi (q + 53)"
    using ilog2_bounds(1)[OF y0] up by simp
  then have e': "ilog2 y \<le> q + 53" by (rule p2_le_imp_le)
  have "\<exists>m. y = of_int m * 2 powi q'"
  proof (cases "ilog2 y = q + 53")
    case True
    then have q'1: "q' = q + 1" using q_lo by (simp add: q'_def)
    have "(2::rat) powi (q + 53) \<le> \<bar>y\<bar>" using ilog2_bounds(1)[OF y0] True by simp
    then have "(2::rat) ^ 53 * 2 powi q \<le> of_int \<bar>n\<bar> * 2 powi q"
      by (simp add: ay power_int_add mult.commute)
    then have "(2::rat) ^ 53 \<le> of_int \<bar>n\<bar>" by (simp only: mult_le_cancel_right_pos zero_less_power_int zero_less_numeral)
    then have "(of_int (2 ^ 53) :: rat) \<le> of_int \<bar>n\<bar>" by simp
    then have "2 ^ 53 \<le> \<bar>n\<bar>" by (simp only: of_int_le_iff)
    with n53 have "\<bar>n\<bar> = 2 ^ 53" by simp
    then have "even \<bar>n\<bar>" by simp
    then have "even n" by simp
    then obtain h where h: "n = 2 * h" by (auto elim: evenE)
    have "y = of_int h * 2 powi (q + 1)" by (simp add: y h power_int_add)
    with q'1 show ?thesis by blast
  next
    case False
    with e' have "ilog2 y - 52 \<le> q" by simp
    with q_lo have le: "q' \<le> q" by (simp add: q'_def)
    have "(2::rat) powi q = 2 powi (q - q') * 2 powi q'"
      by (simp flip: power_int_add)
    also have "(2::rat) powi (q - q') = of_int (2 ^ nat (q - q'))"
      using le by (simp add: power_int_def)
    finally have "y = of_int (n * 2 ^ nat (q - q')) * 2 powi q'"
      by (simp add: y)
    then show ?thesis by blast
  qed
  then obtain m where "y = of_int m * 2 powi q'" by blast
  then have "nearest_binary64 y = y" using q'_def by (rule nb_of_multiple)
  then show ?thesis by (simp add: y_def)
qed


lemma float_of_rat_Finite_iff:
  "float_of_rat x = Finite y \<longleftrightarrow> y = nearest_binary64 x \<and> \<bar>y\<bar> < 2 ^ 1024"
  unfolding float_of_rat_def Let_def by (auto simp: abs_less_iff not_le)

lemma float_of_rat_small:
  assumes "\<bar>x\<bar> \<le> 2 ^ 1022"
  shows "float_of_rat x = Finite (nearest_binary64 x)"
proof -
  have "\<bar>nearest_binary64 x\<bar> \<le> 2 * \<bar>x\<bar> + 1" by (rule nb_bound)
  also have "\<dots> \<le> 2 * 2 ^ 1022 + 1" using assms by simp
  also have "\<dots> < (2::rat) ^ 1024" by simp
  finally show ?thesis by (simp only: float_of_rat_Finite_iff simp_thms)
qed

lemma rhe_scaled_close:
  "\<bar>of_int (round_half_even (y * 10 ^ k)) / 10 ^ k - y\<bar> \<le> 1 / 2"
proof -
  have pos: "(0::rat) < 10 ^ k" by simp
  have ge1: "(1::rat) \<le> 10 ^ k" by simp
  have "of_int (round_half_even (y * 10 ^ k)) / 10 ^ k - y =
        (of_int (round_half_even (y * 10 ^ k)) - y * 10 ^ k) / 10 ^ k"
    by (simp add: diff_divide_distrib)
  then have "\<bar>of_int (round_half_even (y * 10 ^ k)) / 10 ^ k - y\<bar> =
        \<bar>of_int (round_half_even (y * 10 ^ k)) - y * 10 ^ k\<bar> / 10 ^ k"
    by (simp add: abs_divide)
  also have "\<dots> \<le> (1 / 2) / 10 ^ k"
    by (rule divide_right_mono[OF rhe_close]) simp
  also have "\<dots> \<le> (1 / 2) / 1"
    by (rule divide_left_mono[OF ge1]) simp_all
  finally show ?thesis by simp
qed

lemma py_round_total:
  assumes "float_of_rat x = Finite y"
  shows "\<exists>r. py_round (Finite y) k = Inr (Finite r)"
proof (cases "323 < k")
  case True
  then show ?thesis by (simp add: py_round_def)
next
  case False
  define z where "z = of_int (round_half_even (y * 10 ^ k)) / (10 ^ k :: rat)"
  from iffD1[OF float_of_rat_Finite_iff assms]
  have y: "y = nearest_binary64 x" and yb: "\<bar>y\<bar> < 2 ^ 1024" by blast+
  have "\<exists>r. float_of_rat z = Finite r"
  proof (cases "x \<noteq> 0 \<and> 0 \<le> max (ilog2 x - 52) (- 1074)")
    case True
    define q where "q = max (ilog2 x - 52) (- 1074)"
    define n where "n = round_half_even (x / 2 powi q)"
    from True have q0: "0 \<le> q" and x0: "x \<noteq> 0" by (simp_all add: q_def)
    have "y = of_int n * 2 powi q"
      using x0 by (simp add: y nearest_binary64_def Let_def q_def n_def)
    also have "(2::rat) powi q = of_int (2 ^ nat q)" using q0 by (simp add: power_int_def)
    finally have yi: "y = of_int (n * 2 ^ nat q)" by simp
    have "y * 10 ^ k = of_int (n * 2 ^ nat q * 10 ^ k)" by (simp add: yi)
    then have "round_half_even (y * 10 ^ k) = n * 2 ^ nat q * 10 ^ k"
      by (simp only: rhe_of_int)
    then have "z = y" by (simp add: z_def yi)
    then have "nearest_binary64 z = y" by (simp add: y nb_idem)
    with yb have "float_of_rat z = Finite y" by (simp only: float_of_rat_Finite_iff simp_thms)
    then show ?thesis by blast
  next
    case False
    have "\<bar>y\<bar> \<le> 2 ^ 53"
    proof (cases "x = 0")
      case True
      then show ?thesis by (simp add: y nearest_binary64_def)
    next
      case x0: False
      define q where "q = max (ilog2 x - 52) (- 1074)"
      define n where "n = round_half_even (x / 2 powi q)"
      from False x0 have q0: "q \<le> 0" by (simp add: q_def)
      have yn: "y = of_int n * 2 powi q"
        using x0 by (simp add: y nearest_binary64_def Let_def q_def n_def)
      have n53: "\<bar>n\<bar> \<le> 2 ^ 53" unfolding n_def q_def by (rule nb_mantissa[OF x0])
      have "(2::rat) powi q \<le> 2 powi 0" using q0 by (intro power_int_increasing) simp_all
      then have q1: "(2::rat) powi q \<le> 1" by simp
      have "\<bar>y\<bar> = of_int \<bar>n\<bar> * 2 powi q" by (simp add: yn abs_mult)
      also have "\<dots> \<le> of_int (2 ^ 53) * 1"
        using n53 q1 by (intro mult_mono) (simp_all only: of_int_le_iff zero_le_power_int zero_le_numeral of_int_0_le_iff abs_ge_zero zero_le_power)
      finally show ?thesis by simp
    qed
    moreover have "\<bar>z - y\<bar> \<le> 1 / 2" unfolding z_def by (rule rhe_scaled_close)
    ultimately have "\<bar>z\<bar> \<le> 2 ^ 53 + 1 / 2" by linarith
    also have "\<dots> \<le> (2::rat) ^ 1022" by simp
    finally have "float_of_rat z = Finite (nearest_binary64 z)" by (rule float_of_rat_small)
    then show ?thesis by blast
  qed
  then obtain r where "float_of_rat z = Finite r" by blast
  then show ?thesis using False by (simp add: py_round_def z_def)
qed

lemma true_div_total:
  assumes "\<bar>a\<bar> \<le> 2 ^ 1022" and "1 \<le> b"
  shows "\<exists>r. true_div a b = Inr (Finite r) \<and> float_of_rat (of_int a / of_int b) = Finite r"
proof -
  have b1: "(1::rat) \<le> of_int b" using assms(2) by simp
  have "\<bar>of_int a / of_int b :: rat\<bar> = of_int \<bar>a\<bar> / of_int b"
    using assms(2) by (simp add: abs_divide)
  also have "\<dots> \<le> of_int \<bar>a\<bar> / 1"
    by (rule divide_left_mono[OF b1]) (use b1 in simp_all)
  also have "\<dots> \<le> of_int (2 ^ 1022)" using assms(1) by (simp only: div_by_1 of_int_le_iff)
  finally have "\<bar>of_int a / of_int b :: rat\<bar> \<le> 2 ^ 1022" by simp
  then have "float_of_rat (of_int a / of_int b) = Finite (nearest_binary64 (of_int a / of_int b))"
    by (rule float_of_rat_small)
  then show ?thesis using assms(2) by (simp add: true_div_def)
qed

lemma build_response_total:
  assumes "length txt \<le> 5000"
  shows "\<exists>resp. build_response clk txt summ = Inr resp \<and> summary resp = summ"
proof -
  have "\<bar>int (length txt)\<bar> \<le> 5000" using assms by simp
  also have "(5000::int) \<le> 2 ^ 1022" by simp
  finally have a: "\<bar>int (length txt)\<bar> \<le> 2 ^ 1022" .
  have b: "1 \<le> max (int (length summ)) 1" by simp
  from true_div_total[OF a b] obtain r where
    r: "true_div (int (length txt)) (max (int (length summ)) 1) = Inr (Finite r)"
    and fr: "float_of_rat (of_int (int (length txt)) / of_int (max (int (length summ)) 1)) = Finite r"
    by blast
  from py_round_total[OF fr] obtain r2 where r2: "py_round (Finite r) 2 = Inr (Finite r2)" by blast
  have "\<exists>p3. py_round (float_sub (time_end clk) (time_start clk)) 3 = Inr p3"
  proof (cases "float_sub (time_end clk) (time_start clk)")
    case (Finite y)
    then have "float_of_rat (time_end clk - time_start clk) = Finite y" by (simp add: float_sub_def)
    from py_round_total[OF this] Finite show ?thesis by auto
  qed (simp_all add: py_round_def)
  then obtain p3 where p3: "py_round (float_sub (time_end clk) (time_start clk)) 3 = Inr p3" by blast
  show ?thesis by (simp add: build_response_def Let_def r r2 p3)
qed

section \<open>Properties of the handlers\<close>

subsection \<open>What the handlers leave unchanged\<close>

lemma summarize_not_loaded:
  "summarizer s = None \<Longrightarrow>
   summarize s clk request =
     \<lparr>outcome = HTTPException 503 detail_not_loaded, invoked = [], after = s\<rparr>"
  by (simp add: summarize_def)

lemma summarize_keeps_summarizer:
  "summarizer (after (summarize s clk request)) = summarizer s"
  "startup_done (after (summarize s clk request)) = startup_done s"
  by (simp_all add: summarize_def Let_def split: option.splits sum.splits)

lemma post_summarize_keeps_summarizer:
  "summarizer (after (post_summarize s clk body)) = summarizer s"
  "startup_done (after (post_summarize s clk body)) = startup_done s"
  by (simp_all add: post_summarize_def summarize_keeps_summarizer split: sum.splits)

lemma request_keeps_summarizer:
  "is_request ev \<Longrightarrow> summarizer (fire s ev) = summarizer s \<and> startup_done (fire s ev) = startup_done s"
  by (cases ev) (simp_all add: post_summarize_keeps_summarizer)

lemma startup_event_done: "startup_done (startup_event env s)"
  by (simp add: startup_event_def split: sum.splits)

lemma startup_event_summarizer:
  "summarizer (startup_event env s) = (case load_pipeline env of Inl e \<Rightarrow> summarizer s | Inr p \<Rightarrow> Some p)"
  by (simp add: startup_event_def split: sum.splits)

lemma startup_event_loads:
  "load_succeeds env \<Longrightarrow> summarizer (startup_event env s) \<noteq> None"
  by (simp add: startup_event_def load_succeeds_def split: sum.splits)

lemma startup_event_fails:
  "\<not> load_succeeds env \<Longrightarrow> summarizer (startup_event env s) = summarizer s"
  by (simp add: startup_event_def load_succeeds_def split: sum.splits)

lemma run_after_startup:
  "startup_done s \<Longrightarrow> run s evs = Some s' \<Longrightarrow> summarizer s' = summarizer s \<and> startup_done s'"
proof (induction evs arbitrary: s)
  case Nil
  then show ?case by simp
next
  case (Cons ev evs)
  from Cons.prems have en: "enabled s ev" and r: "run (fire s ev) evs = Some s'"
    by (auto split: if_splits)
  from en Cons.prems(1) have "is_request ev" by (cases ev) simp_all
  then have k: "summarizer (fire s ev) = summarizer s" "startup_done (fire s ev) = startup_done s"
    using request_keeps_summarizer by blast+
  with Cons.IH[OF _ r] Cons.prems(1) show ?case by simp
qed

lemma run_invariant:
  "summarizer s \<noteq> None \<longrightarrow> startup_done s \<Longrightarrow> run s evs = Some s' \<Longrightarrow>
   summarizer s' \<noteq> None \<longrightarrow> startup_done s'"
proof (induction evs arbitrary: s)
  case Nil
  then show ?case by simp
next
  case (Cons ev evs)
  from Cons.prems have en: "enabled s ev" and r: "run (fire s ev) evs = Some s'"
    by (auto split: if_splits)
  have "summarizer (fire s ev) \<noteq> None \<longrightarrow> startup_done (fire s ev)"
  proof (cases "is_request ev")
    case True
    then show ?thesis using request_keeps_summarizer[OF True, of s] Cons.prems(1) by simp
  next
    case False
    then obtain env where "ev = Startup env" by (cases ev) simp_all
    then show ?thesis by (simp add: startup_event_done)
  qed
  from Cons.IH[OF this r] show ?case .
qed

subsection \<open>The generation arguments\<close>

lemma summarize_invoked:
  "req_max_length request = Some n \<Longrightarrow>
   invoked (summarize s clk request) =
     (if summarizer s = None then [] else [(req_text request, generation_kwargs n)])"
  by (simp add: summarize_def floordiv3_def generation_kwargs_def Let_def
           split: option.splits sum.splits)

text \<open>
  C1. Whenever the request carries an integer \<open>max_length\<close> (in particular one in
  \<open>[30, 300]\<close>), \<open>summarize\<close> calls the pipeline exactly once when it is loaded, and not
  at all otherwise, with the request's text, the generation ceiling
  \<open>min(100, max_length // 3)\<close>, which never exceeds 100, a minimum length of 20 and
  sampling switched off.
\<close>

theorem summarize_generation_arguments:
  assumes "req_max_length request = Some n"
  shows "invoked (summarize s clk request) =
           (if summarizer s = None then []
            else [(req_text request,
                   \<lparr>kw_max_length = min 100 (n div 3), kw_min_length = 20,
                    kw_do_sample = False\<rparr>)])
         \<and> min 100 (n div 3) \<le> 100"
  using assms by (simp add: summarize_invoked generation_kwargs_def)

theorem summarize_generation_arguments_witness:
  "req_max_length sample_request = Some 100
   \<and> invoked (summarize (ready_server truncating_pipeline) sample_clock sample_request) =
       [(sample_text, \<lparr>kw_max_length = 33, kw_min_length = 20, kw_do_sample = False\<rparr>)]"
  using summarize_generation_arguments[of sample_request 100 "ready_server truncating_pipeline" sample_clock]
  by (simp add: sample_request_def ready_server_def)

text \<open>
  C9. For a requested \<open>max_length\<close> from 30 to 59, all of them valid, the ceiling passed to
  the loaded pipeline is \<open>max_length // 3 < 20\<close>: the call asks for at most fewer
  word-units than the minimum of 20 it asks for. The witness is such a request, accepted by
  the schema.
\<close>

theorem generation_ceiling_below_minimum:
  assumes "summarizer s = Some pipe" and "req_max_length request = Some n"
    and "30 \<le> n" and "n \<le> 59"
  shows "\<exists>kw. invoked (summarize s clk request) = [(req_text request, kw)]
              \<and> kw_max_length kw = min 100 (n div 3) \<and> kw_min_length kw = 20
              \<and> kw_max_length kw < kw_min_length kw"
  using assms by (simp add: summarize_invoked generation_kwargs_def)

theorem generation_ceiling_below_minimum_witness:
  "validate_request \<lparr>body_text = sample_text, body_max_length = IntValue 30\<rparr>
     = Inr \<lparr>req_text = sample_text, req_max_length = Some 30\<rparr>
   \<and> summarizer (ready_server truncating_pipeline) = Some truncating_pipeline
   \<and> (30::int) \<le> 30 \<and> (30::int) \<le> 59
   \<and> (\<exists>kw. invoked (summarize (ready_server truncating_pipeline) sample_clock
                    \<lparr>req_text = sample_text, req_max_length = Some 30\<rparr>) = [(sample_text, kw)]
            \<and> kw_max_length kw = min 100 (30 div 3) \<and> kw_min_length kw = 20
            \<and> kw_max_length kw < kw_min_length kw)"
  using generation_ceiling_below_minimum[of "ready_server truncating_pipeline" truncating_pipeline
          "\<lparr>req_text = sample_text, req_max_length = Some 30\<rparr>" 30 sample_clock]
  by (simp add: ready_server_def validate_request_def text_errors_def max_length_errors_def
        parse_max_length_def sample_text_def)

subsection \<open>Refusals\<close>

text \<open>
  C3. While the engine is not \<open>Ready\<close> (\<open>Loading\<close> or \<open>Failed\<close>), every call of the
  handler \<open>summarize\<close>, and so every \<open>POST /summarize\<close> whose body the schema accepts,
  raises the HTTP exception 503 without calling the pipeline and leaves the server as it
  was, and \<open>health_check\<close> reports \<open>unhealthy\<close> with \<open>model_loaded\<close> false.
\<close>

theorem not_ready_is_unavailable:
  assumes "engine_state s \<noteq> Ready"
  shows "summarize s clk request =
           \<lparr>outcome = HTTPException 503 detail_not_loaded, invoked = [], after = s\<rparr>
         \<and> status_code (outcome (summarize s clk request)) = 503
         \<and> (\<forall>accepted. validate_request body = Inr accepted \<longrightarrow>
               post_summarize s clk body =
                 \<lparr>outcome = HTTPException 503 detail_not_loaded, invoked = [], after = s\<rparr>)
         \<and> status (health_check s now_iso) = ''unhealthy''
         \<and> model_loaded (health_check s now_iso) = False"
proof -
  from assms have "summarizer s = None"
    by (simp add: engine_state_def split: option.splits)
  then show ?thesis by (simp add: summarize_not_loaded health_check_def post_summarize_def)
qed

theorem not_ready_is_unavailable_witness:
  "engine_state (init (0::nat)) \<noteq> Ready
   \<and> engine_state (startup_event failing_load (init 0)) \<noteq> Ready
   \<and> validate_request \<lparr>body_text = sample_text, body_max_length = Omitted\<rparr> = Inr sample_request
   \<and> outcome (summarize (init (0::nat)) sample_clock sample_request)
       = HTTPException 503 detail_not_loaded
   \<and> outcome (summarize (startup_event failing_load (init 0)) sample_clock sample_request)
       = HTTPException 503 detail_not_loaded
   \<and> outcome (post_summarize (startup_event failing_load (init 0)) sample_clock
         \<lparr>body_text = sample_text, body_max_length = Omitted\<rparr>)
       = HTTPException 503 detail_not_loaded
   \<and> status (health_check (startup_event failing_load (init 0)) ''2023-11-14T22:13:21'')
       = ''unhealthy''"
proof -
  have v: "validate_request \<lparr>body_text = sample_text, body_max_length = Omitted\<rparr>
             = Inr sample_request"
    by (simp add: validate_request_def text_errors_def max_length_errors_def
          parse_max_length_def sample_text_def sample_request_def)
  have l: "engine_state (init (0::nat)) \<noteq> Ready"
    by (simp add: engine_state_def init_def)
  have f: "engine_state (startup_event failing_load (init (0::nat))) \<noteq> Ready"
    by (simp add: engine_state_def init_def startup_event_def load_pipeline_def failing_load_def)
  from not_ready_is_unavailable[OF l, of sample_clock sample_request
         "\<lparr>body_text = sample_text, body_max_length = Omitted\<rparr>" "''2023-11-14T22:13:21''"]
    not_ready_is_unavailable[OF f, of sample_clock sample_request
         "\<lparr>body_text = sample_text, body_max_length = Omitted\<rparr>" "''2023-11-14T22:13:21''"]
    v l f
  show ?thesis by simp
qed

text \<open>
  C4. A body whose text is shorter than 50 or longer than 5000 code points, or whose
  \<open>max_length\<close> is an integer below 30 or above 300, is refused by the route with a
  validation error (status 422) listing at least one field; the handler does not run, the
  pipeline is not called and the server is unchanged, whatever the engine state is.
\<close>

theorem invalid_body_is_rejected:
  assumes "length (body_text body) < 50 \<or> 5000 < length (body_text body)
           \<or> (\<exists>n. body_max_length body = IntValue n \<and> (n < 30 \<or> 300 < n))"
  shows "\<exists>errs. errs \<noteq> []
           \<and> post_summarize s clk body =
               \<lparr>outcome = RequestValidationError errs, invoked = [], after = s\<rparr>
           \<and> status_code (outcome (post_summarize s clk body)) = 422"
proof -
  define errs where "errs = text_errors (body_text body) @ max_length_errors (body_max_length body)"
  from assms have "errs \<noteq> []"
    by (auto simp: errs_def text_errors_def max_length_errors_def)
  then have "post_summarize s clk body =
      \<lparr>outcome = RequestValidationError errs, invoked = [], after = s\<rparr>"
    by (auto simp: post_summarize_def validate_request_def Let_def errs_def)
  with \<open>errs \<noteq> []\<close> show ?thesis by auto
qed

theorem invalid_body_is_rejected_witness:
  "length (body_text \<lparr>body_text = replicate 10 1072, body_max_length = IntValue 100\<rparr>) < 50
   \<and> engine_state (init (0::nat)) = Loading
   \<and> engine_state (ready_server truncating_pipeline) = Ready
   \<and> status_code (outcome (post_summarize (init (0::nat)) sample_clock
         \<lparr>body_text = replicate 10 1072, body_max_length = IntValue 100\<rparr>)) = 422
   \<and> status_code (outcome (post_summarize (ready_server truncating_pipeline) sample_clock
         \<lparr>body_text = replicate 10 1072, body_max_length = IntValue 100\<rparr>)) = 422"
  using invalid_body_is_rejected[of "\<lparr>body_text = replicate 10 1072, body_max_length = IntValue 100\<rparr>"
          "init (0::nat)" sample_clock]
    invalid_body_is_rejected[of "\<lparr>body_text = replicate 10 1072, body_max_length = IntValue 100\<rparr>"
          "ready_server truncating_pipeline" sample_clock]
  by (auto simp: engine_state_def init_def ready_server_def)

subsection \<open>Failures of the inference call\<close>

lemma summarize_loaded_status:
  assumes "summarizer s = Some pipe"
  shows "status_code (outcome (summarize s clk request)) = 200
         \<or> status_code (outcome (summarize s clk request)) = 500"
  using assms
  by (simp add: summarize_def processing_error_def Let_def split: option.splits sum.splits)

lemma summarize_raises:
  assumes "summarizer s = Some pipe" and "req_max_length request = Some n"
    and "fst (pipe (runtime s) (req_text request) (generation_kwargs n)) = Inl e"
  shows "summarize s clk request =
           \<lparr>outcome = processing_error e,
            invoked = [(req_text request, generation_kwargs n)],
            after = s\<lparr>runtime := snd (pipe (runtime s) (req_text request) (generation_kwargs n))\<rparr>\<rparr>"
  using assms by (simp add: summarize_def floordiv3_def generation_kwargs_def Let_def)

text \<open>
  C5. When the pipeline is loaded and its call raises an exception \<open>e\<close>, \<open>summarize\<close>
  raises the HTTP exception 500 whose detail is the fixed prefix followed by \<open>str(e)\<close>.
  The variable \<open>summarizer\<close> still holds the same pipeline, so the engine is still
  \<open>Ready\<close> and no later call is answered 503.
\<close>

theorem inference_failure_is_isolated:
  assumes "summarizer s = Some pipe" and "req_max_length request = Some n"
    and "fst (pipe (runtime s) (req_text request) (generation_kwargs n)) = Inl e"
  shows "outcome (summarize s clk request) = HTTPException 500 (detail_prefix @ str e)
         \<and> summarizer (after (summarize s clk request)) = Some pipe
         \<and> engine_state (after (summarize s clk request)) = Ready
         \<and> (\<forall>clk' request'.
               status_code (outcome (summarize (after (summarize s clk request)) clk' request'))
                 \<noteq> 503)"
proof -
  have out: "outcome (summarize s clk request) = HTTPException 500 (detail_prefix @ str e)"
    by (simp add: summarize_raises[OF assms] processing_error_def)
  have keep: "summarizer (after (summarize s clk request)) = Some pipe"
    by (simp add: summarize_keeps_summarizer assms(1))
  then have ready: "engine_state (after (summarize s clk request)) = Ready"
    by (simp add: engine_state_def)
  have later: "status_code (outcome (summarize (after (summarize s clk request)) clk' request')) \<noteq> 503"
    for clk' request'
    using summarize_loaded_status[OF keep, of clk' request'] by auto
  from out keep ready later show ?thesis by blast
qed

theorem inference_failure_is_isolated_witness:
  "summarizer (ready_server raising_pipeline) = Some raising_pipeline
   \<and> req_max_length sample_request = Some 100
   \<and> fst (raising_pipeline (runtime (ready_server raising_pipeline)) (req_text sample_request)
            (generation_kwargs 100))
       = Inl (Raised ''RuntimeError'' (ascii ''CUDA out of memory''))
   \<and> outcome (summarize (ready_server raising_pipeline) sample_clock sample_request)
       = HTTPException 500 (detail_prefix @ ascii ''CUDA out of memory'')
   \<and> engine_state (after (summarize (ready_server raising_pipeline) sample_clock sample_request))
       = Ready"
  using inference_failure_is_isolated[of "ready_server raising_pipeline" raising_pipeline
          sample_request 100 "Raised ''RuntimeError'' (ascii ''CUDA out of memory'')" sample_clock]
  by (simp add: ready_server_def sample_request_def raising_pipeline_def)

subsection \<open>The engine lifecycle\<close>

text \<open>
  C6. The engine starts in \<open>Loading\<close>. The startup hook, run from \<open>Loading\<close>, ends in
  \<open>Ready\<close> when the load succeeds and in \<open>Failed\<close> when it raises. No request (\<open>/\<close>,
  \<open>/health\<close>, \<open>/summarize\<close>) changes \<open>summarizer\<close> or the engine state. In every run
  of the process from its initial state, once the engine has left \<open>Loading\<close> the variable
  and the state stay what they are whatever follows: \<open>Ready\<close> and \<open>Failed\<close> are terminal.
\<close>

theorem engine_state_written_once:
  "engine_state (init rt) = Loading
   \<and> (engine_state s = Loading \<longrightarrow>
        engine_state (fire s (Startup env)) = (if load_succeeds env then Ready else Failed))
   \<and> (is_request ev \<longrightarrow>
        summarizer (fire s ev) = summarizer s \<and> engine_state (fire s ev) = engine_state s)
   \<and> (run (init rt) evs = Some s1 \<longrightarrow> engine_state s1 \<noteq> Loading \<longrightarrow> run s1 evs' = Some s2 \<longrightarrow>
        summarizer s2 = summarizer s1 \<and> engine_state s2 = engine_state s1)"
proof (intro conjI impI)
  show "engine_state (init rt) = Loading" by (simp add: engine_state_def init_def)
next
  assume "engine_state s = Loading"
  then have n: "summarizer s = None" by (simp add: engine_state_def split: option.splits if_splits)
  show "engine_state (fire s (Startup env)) = (if load_succeeds env then Ready else Failed)"
    using n startup_event_loads[of env s] startup_event_fails[of env s] startup_event_done[of env s]
    by (auto simp: engine_state_def split: option.splits)
next
  assume "is_request ev"
  from request_keeps_summarizer[OF this, of s]
  show "summarizer (fire s ev) = summarizer s" "engine_state (fire s ev) = engine_state s"
    by (simp_all add: engine_state_def)
next
  assume r: "run (init rt) evs = Some s1" and nl: "engine_state s1 \<noteq> Loading"
    and r': "run s1 evs' = Some s2"
  have "summarizer s1 \<noteq> None \<longrightarrow> startup_done s1"
    by (rule run_invariant[OF _ r]) (simp add: init_def)
  with nl have d: "startup_done s1" by (auto simp: engine_state_def split: option.splits if_splits)
  from run_after_startup[OF d r'] d
  show "summarizer s2 = summarizer s1" "engine_state s2 = engine_state s1"
    by (simp_all add: engine_state_def)
qed

theorem engine_state_written_once_witness:
  "engine_state (init (0::nat)) = Loading
   \<and> engine_state (fire (init (0::nat)) (Startup working_load)) = Ready
   \<and> engine_state (fire (init (0::nat)) (Startup failing_load)) = Failed
   \<and> is_request (PostSummarize sample_clock
         \<lparr>body_text = sample_text, body_max_length = Omitted\<rparr> :: nat event)
   \<and> run (init (0::nat)) [GetHealth ''t0'', Startup working_load]
       = Some (ready_server truncating_pipeline)
   \<and> engine_state (ready_server truncating_pipeline) \<noteq> Loading
   \<and> run (ready_server truncating_pipeline)
        [GetRoot, PostSummarize sample_clock \<lparr>body_text = sample_text, body_max_length = Omitted\<rparr>]
       = Some (after (post_summarize (ready_server truncating_pipeline) sample_clock
                  \<lparr>body_text = sample_text, body_max_length = Omitted\<rparr>))
   \<and> run (ready_server truncating_pipeline) [GetRoot, Startup failing_load] = None
   \<and> engine_state (after (post_summarize (ready_server truncating_pipeline) sample_clock
                  \<lparr>body_text = sample_text, body_max_length = Omitted\<rparr>)) = Ready"
  using engine_state_written_once[of "0::nat" "init (0::nat)" working_load
          "PostSummarize sample_clock \<lparr>body_text = sample_text, body_max_length = Omitted\<rparr>"
          "[GetHealth ''t0'', Startup working_load]" "ready_server truncating_pipeline"
          "[GetRoot, PostSummarize sample_clock \<lparr>body_text = sample_text, body_max_length = Omitted\<rparr>]"
          "after (post_summarize (ready_server truncating_pipeline) sample_clock
                  \<lparr>body_text = sample_text, body_max_length = Omitted\<rparr>)"]
    engine_state_written_once[of "0::nat" "init (0::nat)" failing_load]
  by (simp add: engine_state_def init_def ready_server_def startup_event_def load_pipeline_def
        load_succeeds_def working_load_def failing_load_def)

text \<open>
  C10. A load that raises leaves \<open>summarizer\<close> unset: the engine passes from \<open>Loading\<close>
  to \<open>Failed\<close>, and \<open>health_check\<close>, the handler \<open>summarize\<close> and the route
  \<open>POST /summarize\<close> answer in the \<open>Failed\<close> state exactly what they answer in the
  \<open>Loading\<close> state, with the same calls to the pipeline (none).
\<close>

theorem failed_load_looks_like_loading:
  assumes "engine_state s = Loading" and "\<not> load_succeeds env"
  shows "engine_state (startup_event env s) = Failed
         \<and> summarizer (startup_event env s) = None
         \<and> health_check (startup_event env s) now_iso = health_check s now_iso
         \<and> outcome (summarize (startup_event env s) clk request) = outcome (summarize s clk request)
         \<and> invoked (summarize (startup_event env s) clk request) = invoked (summarize s clk request)
         \<and> outcome (post_summarize (startup_event env s) clk body) = outcome (post_summarize s clk body)
         \<and> invoked (post_summarize (startup_event env s) clk body) = invoked (post_summarize s clk body)"
proof -
  from assms(1) have n: "summarizer s = None"
    by (simp add: engine_state_def split: option.splits if_splits)
  with assms(2) have n': "summarizer (startup_event env s) = None"
    by (simp add: startup_event_fails)
  have f: "engine_state (startup_event env s) = Failed"
    by (simp add: engine_state_def n' startup_event_done)
  have h: "health_check (startup_event env s) now_iso = health_check s now_iso"
    by (simp add: health_check_def n n')
  have su: "outcome (summarize (startup_event env s) clk r) = outcome (summarize s clk r)"
    "invoked (summarize (startup_event env s) clk r) = invoked (summarize s clk r)" for r
    by (simp_all add: summarize_not_loaded n n')
  have po: "outcome (post_summarize (startup_event env s) clk body) = outcome (post_summarize s clk body)"
    "invoked (post_summarize (startup_event env s) clk body) = invoked (post_summarize s clk body)"
    by (simp_all add: post_summarize_def su split: sum.splits)
  from f n' h su po show ?thesis by blast
qed

theorem failed_load_looks_like_loading_witness:
  "engine_state (init (0::nat)) = Loading \<and> \<not> load_succeeds failing_load
   \<and> engine_state (startup_event failing_load (init (0::nat))) = Failed
   \<and> summarizer (startup_event failing_load (init (0::nat))) = None
   \<and> health_check (startup_event failing_load (init (0::nat))) ''2023-11-14T22:13:21''
       = \<lparr>status = ''unhealthy'', model_loaded = False, health_timestamp = ''2023-11-14T22:13:21''\<rparr>
   \<and> outcome (summarize (startup_event failing_load (init (0::nat))) sample_clock sample_request)
       = HTTPException 503 detail_not_loaded"
  using failed_load_looks_like_loading[of "init (0::nat)" failing_load "''2023-11-14T22:13:21''"
          sample_clock sample_request]
  by (simp add: engine_state_def init_def load_succeeds_def load_pipeline_def failing_load_def
        startup_event_def health_check_def summarize_def)

subsection \<open>The response of a successful call\<close>

text \<open>
  Rules to evaluate the float operations on given values, the shape of what
  \<open>build_response\<close> and \<open>summarize\<close> return, and the sample call evaluated.
\<close>

lemma float_of_rat_eval:
  "\<bar>x\<bar> \<le> 2 ^ 1022 \<Longrightarrow> nearest_binary64 x = y \<Longrightarrow> float_of_rat x = Finite y"
  using float_of_rat_small[of x] by simp

lemma true_div_eval:
  assumes "b \<noteq> 0" and "\<bar>of_int a / of_int b :: rat\<bar> \<le> 2 ^ 1022"
    and "nearest_binary64 (of_int a / of_int b) = y"
  shows "true_div a b = Inr (Finite y)"
  using assms(1) float_of_rat_eval[OF assms(2,3)] by (simp add: true_div_def)

lemma py_round_eval:
  assumes "k \<le> 323" and "round_half_even (x * 10 ^ k) = m"
    and "\<bar>of_int m / 10 ^ k :: rat\<bar> \<le> 2 ^ 1022"
    and "nearest_binary64 (of_int m / 10 ^ k) = y"
  shows "py_round (Finite x) k = Inr (Finite y)"
  using assms(1) float_of_rat_eval[OF assms(3,4)] by (simp add: py_round_def assms(2))

lemma float_sub_eval:
  assumes "\<bar>a - b\<bar> \<le> 2 ^ 1022" and "nearest_binary64 (a - b) = y"
  shows "float_sub a b = Finite y"
  using float_of_rat_eval[OF assms] by (simp add: float_sub_def)

lemma py_round_elapsed: "\<exists>p. py_round (float_sub a b) k = Inr p"
proof (cases "float_sub a b")
  case (Finite y)
  then have "float_of_rat (a - b) = Finite y" by (simp add: float_sub_def)
  from py_round_total[OF this] Finite show ?thesis by auto
qed (simp_all add: py_round_def)

lemma build_response_fields:
  assumes "build_response clk txt summ = Inr resp"
  shows "summary resp = summ" "original_length resp = int (length txt)"
    "summary_length resp = int (length summ)"
    "\<exists>ratio. true_div (int (length txt)) (max (int (length summ)) 1) = Inr ratio
            \<and> py_round ratio 2 = Inr (compression_ratio resp)"
    "py_round (float_sub (time_end clk) (time_start clk)) 3 = Inr (processing_time resp)"
  using assms by (auto simp: build_response_def Let_def split: sum.splits)

lemma build_response_clock:
  "\<exists>p. build_response clk' txt summ =
     (case build_response clk txt summ of
        Inl e \<Rightarrow> Inl e
      | Inr r \<Rightarrow> Inr (r\<lparr>processing_time := p, timestamp := now_strftime clk'\<rparr>))"
proof -
  obtain p where p: "py_round (float_sub (time_end clk) (time_start clk)) 3 = Inr p"
    using py_round_elapsed by blast
  obtain p' where p': "py_round (float_sub (time_end clk') (time_start clk')) 3 = Inr p'"
    using py_round_elapsed by blast
  have "build_response clk' txt summ =
     (case build_response clk txt summ of
        Inl e \<Rightarrow> Inl e
      | Inr r \<Rightarrow> Inr (r\<lparr>processing_time := p', timestamp := now_strftime clk'\<rparr>))"
    by (simp add: build_response_def Let_def p p' split: sum.splits)
  then show ?thesis by blast
qed

lemma summarize_outcome:
  assumes "summarizer s = Some pipe"
  shows "outcome (summarize s clk request) =
     (case floordiv3 (req_max_length request) of
        Inl e \<Rightarrow> processing_error e
      | Inr words \<Rightarrow>
          (case fst (pipe (runtime s) (req_text request)
                      \<lparr>kw_max_length = min 100 words, kw_min_length = 20,
                       kw_do_sample = False\<rparr>) of
             Inl e \<Rightarrow> processing_error e
           | Inr result \<Rightarrow>
               (case summary_text result of
                  Inl e \<Rightarrow> processing_error e
                | Inr summ \<Rightarrow>
                    (case build_response clk (req_text request) summ of
                       Inl e \<Rightarrow> processing_error e
                     | Inr resp \<Rightarrow> Response resp))))"
  using assms by (simp add: summarize_def Let_def split: sum.splits)

lemma summarize_Response:
  assumes "outcome (summarize s clk request) = Response resp"
  shows "build_response clk (req_text request) (summary resp) = Inr resp"
proof -
  from assms obtain summ where b: "build_response clk (req_text request) summ = Inr resp"
    by (auto simp: summarize_def processing_error_def Let_def split: option.splits sum.splits)
  from build_response_fields(1)[OF b] b show ?thesis by simp
qed

lemma summarize_returns:
  assumes "summarizer s = Some pipe" and "req_max_length request = Some n"
    and "fst (pipe (runtime s) (req_text request) (generation_kwargs n)) = Inr result"
    and "summary_text result = Inr summ"
  shows "outcome (summarize s clk request) =
           (case build_response clk (req_text request) summ of
              Inl e \<Rightarrow> processing_error e
            | Inr resp \<Rightarrow> Response resp)"
  using assms
  by (simp add: summarize_def floordiv3_def generation_kwargs_def Let_def split: sum.splits)

lemma sample_elapsed:
  "py_round (float_sub (time_end sample_clock) (time_start sample_clock)) 3 = Inr (Finite (3 / 2))"
proof -
  have s: "float_sub (time_end sample_clock) (time_start sample_clock) = Finite (3 / 2)"
  proof (rule float_sub_eval)
    show "nearest_binary64 (time_end sample_clock - time_start sample_clock) = 3 / 2"
      by code_simp
  qed (simp add: sample_clock_def)
  have "py_round (Finite (3 / 2)) 3 = Inr (Finite (3 / 2))"
  proof (rule py_round_eval[where m = 1500])
    show "round_half_even (3 / 2 * 10 ^ 3) = 1500" by code_simp
    show "nearest_binary64 (of_int 1500 / 10 ^ 3) = 3 / 2" by code_simp
  qed simp_all
  with s show ?thesis by simp
qed

lemma sample_ratio_33:
  "true_div 60 33 = Inr (Finite (8188362958855447 / 4503599627370496))"
  "py_round (Finite (8188362958855447 / 4503599627370496)) 2
     = Inr (Finite (8196551321814303 / 4503599627370496))"
proof -
  show "true_div 60 33 = Inr (Finite (8188362958855447 / 4503599627370496))"
  proof (rule true_div_eval)
    show "nearest_binary64 (of_int 60 / of_int 33) = 8188362958855447 / 4503599627370496"
      by code_simp
  qed simp_all
  show "py_round (Finite (8188362958855447 / 4503599627370496)) 2
     = Inr (Finite (8196551321814303 / 4503599627370496))"
  proof (rule py_round_eval[where m = 182])
    show "round_half_even (8188362958855447 / 4503599627370496 * 10 ^ 2) = 182" by code_simp
    show "nearest_binary64 (of_int 182 / 10 ^ 2) = 8196551321814303 / 4503599627370496"
      by code_simp
  qed simp_all
qed

lemma sample_response:
  "outcome (summarize (ready_server truncating_pipeline) clk sample_request) =
     (case build_response clk sample_text (replicate 33 1072) of
        Inl e \<Rightarrow> processing_error e
      | Inr resp \<Rightarrow> Response resp)"
proof -
  have "outcome (summarize (ready_server truncating_pipeline) clk sample_request) =
     (case build_response clk (req_text sample_request) (replicate 33 1072) of
        Inl e \<Rightarrow> processing_error e
      | Inr resp \<Rightarrow> Response resp)"
    by (rule summarize_returns[where n = 100 and pipe = truncating_pipeline
          and result = "[[(''summary_text'', replicate 33 1072)]]"])
       (simp_all add: ready_server_def sample_request_def sample_text_def
          truncating_pipeline_def generation_kwargs_def summary_text_def)
  then show ?thesis by (simp add: sample_request_def)
qed

text \<open>
  C2. Every response \<open>summarize\<close> returns (so for every valid request handled while the
  engine is \<open>Ready\<close>) has \<open>original_length\<close> equal to the number of code points of the
  request's text, \<open>summary_length\<close> equal to that of the returned summary,
  \<open>compression_ratio\<close> equal to \<open>round(original_length / max(summary_length, 1), 2)\<close>
  and \<open>processing_time\<close> equal to \<open>round\<close> to 3 digits of the difference of the two
  clock readings. The witness evaluates a valid request.
\<close>

theorem summarize_response_metrics:
  assumes "outcome (summarize s clk request) = Response resp"
  shows "original_length resp = int (length (req_text request))
         \<and> summary_length resp = int (length (summary resp))
         \<and> (\<exists>ratio. true_div (original_length resp) (max (summary_length resp) 1) = Inr ratio
                  \<and> py_round ratio 2 = Inr (compression_ratio resp))
         \<and> py_round (float_sub (time_end clk) (time_start clk)) 3 = Inr (processing_time resp)"
proof -
  note b = summarize_Response[OF assms]
  from build_response_fields(2-5)[OF b] show ?thesis by simp
qed

theorem summarize_response_metrics_witness:
  "validate_request \<lparr>body_text = sample_text, body_max_length = IntValue 100\<rparr> = Inr sample_request
   \<and> outcome (summarize (ready_server truncating_pipeline) sample_clock sample_request) =
       Response \<lparr>summary = replicate 33 1072, original_length = 60, summary_length = 33,
                 compression_ratio = Finite (8196551321814303 / 4503599627370496),
                 processing_time = Finite (3 / 2), model_used = ''rut5_base_sum_gazeta'',
                 timestamp = ''2023-11-14 22:13:21''\<rparr>
   \<and> true_div 60 (max 33 1) = Inr (Finite (8188362958855447 / 4503599627370496))
   \<and> py_round (Finite (8188362958855447 / 4503599627370496)) 2
       = Inr (Finite (8196551321814303 / 4503599627370496))
   \<and> py_round (float_sub (time_end sample_clock) (time_start sample_clock)) 3
       = Inr (Finite (3 / 2))"
proof -
  have v: "validate_request \<lparr>body_text = sample_text, body_max_length = IntValue 100\<rparr>
             = Inr sample_request"
    by (simp add: validate_request_def text_errors_def max_length_errors_def
          parse_max_length_def sample_text_def sample_request_def)
  have b: "build_response sample_clock sample_text (replicate 33 1072) =
       Inr \<lparr>summary = replicate 33 1072, original_length = 60, summary_length = 33,
            compression_ratio = Finite (8196551321814303 / 4503599627370496),
            processing_time = Finite (3 / 2), model_used = ''rut5_base_sum_gazeta'',
            timestamp = ''2023-11-14 22:13:21''\<rparr>"
    by (simp add: build_response_def Let_def sample_text_def sample_ratio_33 sample_elapsed)
       (simp add: sample_clock_def)
  have e: "outcome (summarize (ready_server truncating_pipeline) sample_clock sample_request) =
       Response \<lparr>summary = replicate 33 1072, original_length = 60, summary_length = 33,
                 compression_ratio = Finite (8196551321814303 / 4503599627370496),
                 processing_time = Finite (3 / 2), model_used = ''rut5_base_sum_gazeta'',
                 timestamp = ''2023-11-14 22:13:21''\<rparr>"
    by (simp add: sample_response b)
  from summarize_response_metrics[OF e] v e sample_ratio_33 sample_elapsed
  show ?thesis by simp
qed

subsection \<open>Repeated calls\<close>

lemma deterministic_truncating: "deterministic truncating_pipeline"
  by (simp add: deterministic_def truncating_pipeline_def)

text \<open>
  C7. With a deterministic pipeline stored in \<open>summarizer\<close>, two calls of \<open>summarize\<close>
  with the same request, made in any two states of the server and at any two times (in
  particular the second right after the first), call the pipeline with the same text and
  arguments, sampling off; when the first returns a response the second returns one with
  the same summary, summary length and compression ratio, and when the first raises an
  HTTP exception the second raises the same.
\<close>

theorem deterministic_engine_repeats_summary:
  assumes "deterministic pipe" and "summarizer s = Some pipe" and "summarizer s' = Some pipe"
  shows "invoked (summarize s' clk' request) = invoked (summarize s clk request)
         \<and> (\<forall>r. outcome (summarize s clk request) = Response r \<longrightarrow>
                (\<exists>r'. outcome (summarize s' clk' request) = Response r'
                      \<and> summary r' = summary r
                      \<and> summary_length r' = summary_length r
                      \<and> compression_ratio r' = compression_ratio r))
         \<and> (\<forall>code detail. outcome (summarize s clk request) = HTTPException code detail \<longrightarrow>
                outcome (summarize s' clk' request) = HTTPException code detail)
         \<and> summarizer (after (summarize s clk request)) = Some pipe"
proof -
  have inv: "invoked (summarize s' clk' request) = invoked (summarize s clk request)"
    using assms(2,3)
    by (simp add: summarize_def Let_def split: option.splits sum.splits)
  have same: "fst (pipe (runtime s') (req_text request)
                    \<lparr>kw_max_length = m, kw_min_length = 20, kw_do_sample = False\<rparr>)
            = fst (pipe (runtime s) (req_text request)
                    \<lparr>kw_max_length = m, kw_min_length = 20, kw_do_sample = False\<rparr>)" for m
    using assms(1) by (simp add: deterministic_def)
  have resp: "\<exists>r'. outcome (summarize s' clk' request) = Response r'
                  \<and> summary r' = summary r \<and> summary_length r' = summary_length r
                  \<and> compression_ratio r' = compression_ratio r"
    if "outcome (summarize s clk request) = Response r" for r
  proof -
    from that obtain words result summ where
      w: "floordiv3 (req_max_length request) = Inr words"
      and p: "fst (pipe (runtime s) (req_text request)
                    \<lparr>kw_max_length = min 100 words, kw_min_length = 20, kw_do_sample = False\<rparr>)
              = Inr result"
      and t: "summary_text result = Inr summ"
      and b: "build_response clk (req_text request) summ = Inr r"
      by (auto simp: summarize_outcome[OF assms(2)] processing_error_def split: sum.splits)
    from build_response_clock[of clk' "req_text request" summ clk] b obtain q where
      "build_response clk' (req_text request) summ
         = Inr (r\<lparr>processing_time := q, timestamp := now_strftime clk'\<rparr>)"
      by auto
    then have "outcome (summarize s' clk' request)
                 = Response (r\<lparr>processing_time := q, timestamp := now_strftime clk'\<rparr>)"
      by (simp add: summarize_outcome[OF assms(3)] w same p t)
    then show ?thesis by simp
  qed
  have err: "outcome (summarize s' clk' request) = HTTPException code detail"
    if "outcome (summarize s clk request) = HTTPException code detail" for code detail
  proof -
    obtain q where q: "build_response clk' (req_text request) summ =
       (case build_response clk (req_text request) summ of
          Inl e \<Rightarrow> Inl e
        | Inr r \<Rightarrow> Inr (r\<lparr>processing_time := q summ, timestamp := now_strftime clk'\<rparr>))"
      for summ
      using build_response_clock[of clk' "req_text request" _ clk] by metis
    from that show ?thesis
      by (auto simp: summarize_outcome[OF assms(2)] summarize_outcome[OF assms(3)] same q
            processing_error_def split: sum.splits)
  qed
  have keep: "summarizer (after (summarize s clk request)) = Some pipe"
    by (simp add: summarize_keeps_summarizer assms(2))
  from inv resp err keep show ?thesis by blast
qed

theorem deterministic_engine_repeats_summary_witness:
  "deterministic truncating_pipeline
   \<and> summarizer (ready_server truncating_pipeline) = Some truncating_pipeline
   \<and> summarizer (after (summarize (ready_server truncating_pipeline) sample_clock sample_request))
       = Some truncating_pipeline
   \<and> (\<exists>r'. outcome (summarize
                 (after (summarize (ready_server truncating_pipeline) sample_clock sample_request))
                 \<lparr>time_start = 1700000100, time_end = 1700000107, now_strftime = ''2023-11-14 22:15:07''\<rparr>
                 sample_request) = Response r'
           \<and> summary r' = replicate 33 1072)"
proof -
  have e: "outcome (summarize (ready_server truncating_pipeline) sample_clock sample_request) =
       Response \<lparr>summary = replicate 33 1072, original_length = 60, summary_length = 33,
                 compression_ratio = Finite (8196551321814303 / 4503599627370496),
                 processing_time = Finite (3 / 2), model_used = ''rut5_base_sum_gazeta'',
                 timestamp = ''2023-11-14 22:13:21''\<rparr>"
    by (simp add: sample_response build_response_def Let_def sample_text_def sample_ratio_33
          sample_elapsed)
       (simp add: sample_clock_def)
  have k: "summarizer (ready_server truncating_pipeline) = Some truncating_pipeline"
    by (simp add: ready_server_def)
  have k': "summarizer (after (summarize (ready_server truncating_pipeline) sample_clock sample_request))
       = Some truncating_pipeline"
    by (simp add: summarize_keeps_summarizer k)
  from deterministic_engine_repeats_summary[OF deterministic_truncating k k',
         of "\<lparr>time_start = 1700000100, time_end = 1700000107, now_strftime = ''2023-11-14 22:15:07''\<rparr>"
            sample_request sample_clock] e deterministic_truncating k k'
  show ?thesis by auto
qed

subsection \<open>The scenario of a text of 60 characters\<close>

text \<open>
  A quotient of at least one stays at least one through both roundings, so a summary that
  is not empty and not longer than the text gives a compression ratio of at least one.
\<close>

lemma p2_less_imp_less: "(2::rat) powi a < 2 powi b \<Longrightarrow> a < b"
proof (rule ccontr)
  assume lt: "(2::rat) powi a < 2 powi b" and "\<not> a < b"
  then have "b \<le> a" by simp
  then have "(2::rat) powi b \<le> 2 powi a" by (rule power_int_increasing) simp
  with lt show False by simp
qed

lemma nb_ge_one:
  assumes "1 \<le> x"
  shows "1 \<le> nearest_binary64 x"
proof -
  from assms have x0: "x \<noteq> 0" and ax: "\<bar>x\<bar> = x" by simp_all
  define e where "e = ilog2 x"
  have lo: "2 powi e \<le> x" and hi: "x < 2 powi (e + 1)"
    using ilog2_bounds[OF x0] by (simp_all add: e_def ax)
  from assms hi have "(2::rat) powi 0 < 2 powi (e + 1)" by simp
  then have "0 < e + 1" by (rule p2_less_imp_less)
  then have e0: "0 \<le> e" by simp
  then have q: "max (e - 52) (- 1074) = e - 52" by simp
  have pos: "(0::rat) < 2 powi (e - 52)" by simp
  have split: "(2::rat) powi e = 2 powi 52 * 2 powi (e - 52)"
    using power_int_add[of "2::rat" 52 "e - 52"] by simp
  with lo have "2 powi 52 * 2 powi (e - 52) \<le> x" by simp
  then have "(2::rat) powi 52 \<le> x / 2 powi (e - 52)" by (simp add: pos_le_divide_eq)
  then have "of_int (2 ^ 52) \<le> x / 2 powi (e - 52)" by simp
  then have m: "2 ^ 52 \<le> round_half_even (x / 2 powi (e - 52))" by (rule rhe_ge)
  have nb: "nearest_binary64 x = of_int (round_half_even (x / 2 powi (e - 52))) * 2 powi (e - 52)"
    using x0 by (simp add: nearest_binary64_def Let_def q e_def[symmetric])
  have "(1::rat) = 2 powi 0" by simp
  also have "\<dots> \<le> 2 powi e" using e0 by (intro power_int_increasing) simp_all
  also have "\<dots> = of_int (2 ^ 52) * 2 powi (e - 52)" using split by simp
  also have "\<dots> \<le> of_int (round_half_even (x / 2 powi (e - 52))) * 2 powi (e - 52)"
    using m by (intro mult_right_mono) (simp_all only: of_int_le_iff zero_le_power_int zero_le_numeral)
  finally show ?thesis by (simp only: nb)
qed

lemma py_round_ge_one:
  assumes "py_round (Finite y) k = Inr v" and "1 \<le> y"
  shows "float_ge v 1"
proof (cases "323 < k")
  case True
  with assms show ?thesis by (auto simp: py_round_def float_ge_def)
next
  case False
  define z where "z = of_int (round_half_even (y * 10 ^ k)) / (10 ^ k :: rat)"
  from assms(1) False have "\<exists>r. v = Finite r \<and> float_of_rat z = Finite r"
    by (cases "float_of_rat z") (auto simp: py_round_def z_def)
  then obtain r where v: "v = Finite r" and f: "float_of_rat z = Finite r" by blast
  from iffD1[OF float_of_rat_Finite_iff f] have r: "r = nearest_binary64 z" by blast
  have "(of_int (10 ^ k) :: rat) \<le> y * 10 ^ k" using assms(2) by simp
  then have "10 ^ k \<le> round_half_even (y * 10 ^ k)" by (rule rhe_ge)
  then have "(of_int (10 ^ k) :: rat) \<le> of_int (round_half_even (y * 10 ^ k))"
    by (simp only: of_int_le_iff)
  then have "1 \<le> z" by (simp add: z_def pos_le_divide_eq)
  then have "1 \<le> r" unfolding r by (rule nb_ge_one)
  then show ?thesis by (simp add: v float_ge_def)
qed

lemma true_div_ge_one:
  assumes "true_div a b = Inr v" and "1 \<le> b" and "b \<le> a"
  shows "\<exists>y. v = Finite y \<and> 1 \<le> y"
proof -
  from assms(1,2) have "\<exists>r. v = Finite r \<and> float_of_rat (of_int a / of_int b) = Finite r"
    by (cases "float_of_rat (of_int a / of_int b)") (auto simp: true_div_def)
  then obtain r where v: "v = Finite r"
    and f: "float_of_rat (of_int a / of_int b) = Finite r" by blast
  from iffD1[OF float_of_rat_Finite_iff f] have r: "r = nearest_binary64 (of_int a / of_int b)"
    by blast
  have "(1::rat) \<le> of_int a / of_int b" using assms(2,3) by (simp add: pos_le_divide_eq)
  then have "1 \<le> r" unfolding r by (rule nb_ge_one)
  with v show ?thesis by blast
qed

lemma ratio_ge_one:
  assumes "build_response clk txt summ = Inr resp"
    and "1 \<le> length summ" and "length summ \<le> length txt"
  shows "float_ge (compression_ratio resp) 1"
proof -
  from build_response_fields(4)[OF assms(1)] obtain ratio where
    d: "true_div (int (length txt)) (max (int (length summ)) 1) = Inr ratio"
    and r: "py_round ratio 2 = Inr (compression_ratio resp)"
    by blast
  from assms(2,3) have "1 \<le> max (int (length summ)) 1"
    "max (int (length summ)) 1 \<le> int (length txt)" by simp_all
  from true_div_ge_one[OF d this] obtain y where "ratio = Finite y" "1 \<le> y" by blast
  with r show ?thesis by (auto intro: py_round_ge_one)
qed

text \<open>
  C8, as amended. For a text of exactly 60 code points with \<open>max_length = 100\<close>, handled
  while the pipeline is loaded, when the pipeline returns a summary of 1 to 60 code points
  the call returns a response with that summary, \<open>original_length = 60\<close>,
  \<open>summary_length \<ge> 1\<close> and \<open>compression_ratio \<ge> 1.0\<close>.
\<close>

theorem short_summary_scenario:
  assumes "length (req_text request) = 60" and "req_max_length request = Some 100"
    and "summarizer s = Some pipe"
    and "fst (pipe (runtime s) (req_text request) (generation_kwargs 100)) = Inr result"
    and "summary_text result = Inr summ"
    and "1 \<le> length summ" and "length summ \<le> 60"
  shows "\<exists>resp. outcome (summarize s clk request) = Response resp
           \<and> summary resp = summ
           \<and> original_length resp = 60
           \<and> 1 \<le> summary_length resp
           \<and> float_ge (compression_ratio resp) 1"
proof -
  have "length (req_text request) \<le> 5000" using assms(1) by simp
  from build_response_total[OF this, of clk summ] obtain resp where
    b: "build_response clk (req_text request) summ = Inr resp" by blast
  have o: "outcome (summarize s clk request) = Response resp"
    by (simp add: summarize_returns[OF assms(3,2,4,5)] b)
  have "length summ \<le> length (req_text request)" using assms(1,7) by simp
  then have "float_ge (compression_ratio resp) 1" by (rule ratio_ge_one[OF b assms(6)])
  with o build_response_fields(1-3)[OF b] assms(1,6) show ?thesis by simp
qed

theorem short_summary_scenario_witness:
  "length (req_text sample_request) = 60 \<and> req_max_length sample_request = Some 100
   \<and> summarizer (ready_server truncating_pipeline) = Some truncating_pipeline
   \<and> fst (truncating_pipeline (runtime (ready_server truncating_pipeline))
            (req_text sample_request) (generation_kwargs 100))
       = Inr [[(''summary_text'', replicate 33 1072)]]
   \<and> summary_text [[(''summary_text'', replicate 33 1072)]] = Inr (replicate 33 1072)
   \<and> 1 \<le> length (replicate 33 (1072::nat)) \<and> length (replicate 33 (1072::nat)) \<le> 60
   \<and> (\<exists>resp. outcome (summarize (ready_server truncating_pipeline) sample_clock sample_request)
                 = Response resp
             \<and> summary resp = replicate 33 1072
             \<and> original_length resp = 60
             \<and> 1 \<le> summary_length resp
             \<and> float_ge (compression_ratio resp) 1)"
proof -
  have h: "length (req_text sample_request) = 60" "req_max_length sample_request = Some 100"
    "summarizer (ready_server truncating_pipeline) = Some truncating_pipeline"
    "fst (truncating_pipeline (runtime (ready_server truncating_pipeline))
            (req_text sample_request) (generation_kwargs 100))
       = Inr [[(''summary_text'', replicate 33 1072)]]"
    "summary_text [[(''summary_text'', replicate 33 1072)]] = Inr (replicate 33 1072)"
    "1 \<le> length (replicate 33 (1072::nat))" "length (replicate 33 (1072::nat)) \<le> 60"
    by (simp_all add: sample_request_def sample_text_def ready_server_def
          truncating_pipeline_def generation_kwargs_def summary_text_def)
  from short_summary_scenario[OF h, of sample_clock] h show ?thesis by blast
qed

lemma constant_response:
  "outcome (summarize (ready_server (constant_pipeline summ)) clk sample_request) =
     (case build_response clk sample_text summ of
        Inl e \<Rightarrow> processing_error e
      | Inr resp \<Rightarrow> Response resp)"
proof -
  have "outcome (summarize (ready_server (constant_pipeline summ)) clk sample_request) =
     (case build_response clk (req_text sample_request) summ of
        Inl e \<Rightarrow> processing_error e
      | Inr resp \<Rightarrow> Response resp)"
    by (rule summarize_returns[where n = 100 and pipe = "constant_pipeline summ"
          and result = "[[(''summary_text'', summ)]]"])
       (simp_all add: ready_server_def sample_request_def constant_pipeline_def summary_text_def)
  then show ?thesis by (simp add: sample_request_def)
qed

lemma sample_ratio_61:
  "true_div 60 61 = Inr (Finite (4429770125282455 / 4503599627370496))"
  "py_round (Finite (4429770125282455 / 4503599627370496)) 2
     = Inr (Finite (2206763817411543 / 2251799813685248))"
proof -
  show "true_div 60 61 = Inr (Finite (4429770125282455 / 4503599627370496))"
  proof (rule true_div_eval)
    show "nearest_binary64 (of_int 60 / of_int 61) = 4429770125282455 / 4503599627370496"
      by code_simp
  qed simp_all
  show "py_round (Finite (4429770125282455 / 4503599627370496)) 2
     = Inr (Finite (2206763817411543 / 2251799813685248))"
  proof (rule py_round_eval[where m = 98])
    show "round_half_even (4429770125282455 / 4503599627370496 * 10 ^ 2) = 98" by code_simp
    show "nearest_binary64 (of_int 98 / 10 ^ 2) = 2206763817411543 / 2251799813685248"
      by code_simp
  qed simp_all
qed

lemma sample_ratio_1:
  "true_div 60 1 = Inr (Finite 60)" "py_round (Finite 60) 2 = Inr (Finite 60)"
proof -
  show "true_div 60 1 = Inr (Finite 60)"
  proof (rule true_div_eval)
    show "nearest_binary64 (of_int 60 / of_int 1) = 60" by code_simp
  qed simp_all
  show "py_round (Finite 60) 2 = Inr (Finite 60)"
  proof (rule py_round_eval[where m = 6000])
    show "round_half_even (60 * 10 ^ 2) = 6000" by code_simp
    show "nearest_binary64 (of_int 6000 / 10 ^ 2) = 60" by code_simp
  qed simp_all
qed

text \<open>
  C8, as stated, fails: nothing in the handler bounds the length of the summary the
  pipeline returns. For the same text of 60 code points and \<open>max_length = 100\<close>, a
  summary of 61 code points gives the response a compression ratio of 0.98, below one, and
  an empty summary gives it \<open>summary_length = 0\<close>.
\<close>

theorem scenario_summary_unbounded:
  "length (req_text sample_request) = 60 \<and> req_max_length sample_request = Some 100
   \<and> outcome (summarize (ready_server (constant_pipeline (replicate 61 1073)))
                sample_clock sample_request) =
       Response \<lparr>summary = replicate 61 1073, original_length = 60, summary_length = 61,
                 compression_ratio = Finite (2206763817411543 / 2251799813685248),
                 processing_time = Finite (3 / 2), model_used = ''rut5_base_sum_gazeta'',
                 timestamp = ''2023-11-14 22:13:21''\<rparr>
   \<and> \<not> float_ge (Finite (2206763817411543 / 2251799813685248)) 1
   \<and> outcome (summarize (ready_server (constant_pipeline [])) sample_clock sample_request) =
       Response \<lparr>summary = [], original_length = 60, summary_length = 0,
                 compression_ratio = Finite 60,
                 processing_time = Finite (3 / 2), model_used = ''rut5_base_sum_gazeta'',
                 timestamp = ''2023-11-14 22:13:21''\<rparr>"
proof -
  have a: "build_response sample_clock sample_text (replicate 61 1073) =
       Inr \<lparr>summary = replicate 61 1073, original_length = 60, summary_length = 61,
            compression_ratio = Finite (2206763817411543 / 2251799813685248),
            processing_time = Finite (3 / 2), model_used = ''rut5_base_sum_gazeta'',
            timestamp = ''2023-11-14 22:13:21''\<rparr>"
    by (simp add: build_response_def Let_def sample_text_def sample_ratio_61 sample_elapsed)
       (simp add: sample_clock_def)
  have b: "build_response sample_clock sample_text [] =
       Inr \<lparr>summary = [], original_length = 60, summary_length = 0,
            compression_ratio = Finite 60,
            processing_time = Finite (3 / 2), model_used = ''rut5_base_sum_gazeta'',
            timestamp = ''2023-11-14 22:13:21''\<rparr>"
    by (simp add: build_response_def Let_def sample_text_def sample_ratio_1 sample_elapsed)
       (simp add: sample_clock_def)
  have c: "\<not> float_ge (Finite (2206763817411543 / 2251799813685248)) 1"
    by (simp add: float_ge_def)
  have d: "length (req_text sample_request) = 60" "req_max_length sample_request = Some 100"
    by (simp_all add: sample_request_def sample_text_def)
  from a b c d show ?thesis by (simp add: constant_response)
qed

end
